theory Spec2Isabelle
  imports Main
begin

section \<open>The persisted schema\<close>

text \<open>
  The service of \<^verbatim>\<open>main.py\<close> keeps all its state in three tables. A table with
  a primary key is a map from the key to the rest of the row; the message log is the list
  of its rows in the order they were inserted. Timestamps are counted in microseconds
  (the resolution of Python's \<^verbatim>\<open>datetime\<close>), identifiers are integers as in the
  handler signatures (\<^verbatim>\<open>from_id: int\<close>).

  What the database accepts as a parameter is narrower than what Python passes: an
  \<^verbatim>\<open>INTEGER\<close> is a signed 32-bit number, the parameter of \<^verbatim>\<open>LIMIT\<close> a signed
  64-bit one, and a \<^verbatim>\<open>TEXT\<close> cannot hold the character U+0000. The driver or the
  server refuses a statement with any other argument.
\<close>

type_synonym timestamp = int

definition int4 :: "int \<Rightarrow> bool" where
  "int4 x \<longleftrightarrow> - 2147483648 \<le> x \<and> x \<le> 2147483647"

definition int8 :: "int \<Rightarrow> bool" where
  "int8 x \<longleftrightarrow> - 9223372036854775808 \<le> x \<and> x \<le> 9223372036854775807"

definition pg_text :: "string \<Rightarrow> bool" where
  "pg_text s \<longleftrightarrow> CHR 0x00 \<notin> set s"

text \<open>A parameter that may be \<^verbatim>\<open>None\<close>, which is sent as \<^verbatim>\<open>NULL\<close>.\<close>

definition nullable :: "('a \<Rightarrow> bool) \<Rightarrow> 'a option \<Rightarrow> bool" where
  "nullable ok p \<longleftrightarrow> (case p of None \<Rightarrow> True | Some x \<Rightarrow> ok x)"

text \<open>
  The column \<^verbatim>\<open>is_human BOOLEAN DEFAULT TRUE\<close> has no \<^verbatim>\<open>NOT NULL\<close>: a row
  may hold \<^verbatim>\<open>NULL\<close> there (\<open>None\<close>).
\<close>

record user_row =
  u_codeword :: string
  u_is_human :: "bool option"

record token_row =
  t_username :: string
  t_expires :: timestamp

record message_row =
  message_id :: int
  reply_to_message_id :: "int option"
  from_username :: string
  reply_to_username :: "string option"
  message :: string
  datetime :: timestamp

text \<open>The store: the three tables and the sequence behind \<^verbatim>\<open>message_id SERIAL\<close>.\<close>

record db =
  users :: "string \<rightharpoonup> user_row"
  tokens :: "string \<rightharpoonup> token_row"
  messages :: "message_row list"
  next_id :: int

text \<open>
  The constraints the schema declares: \<^verbatim>\<open>message_id\<close> is a primary key drawn from the
  sequence, \<^verbatim>\<open>tokens.username\<close> and \<^verbatim>\<open>messages.from_username\<close> reference
  \<^verbatim>\<open>users(username)\<close>.
\<close>

definition db_ok :: "db \<Rightarrow> bool" where
  "db_ok d \<longleftrightarrow>
     distinct (map message_id (messages d)) \<and>
     list_all (\<lambda>m. message_id m < next_id d) (messages d) \<and>
     list_all (\<lambda>m. users d (from_username m) \<noteq> None) (messages d) \<and>
     (\<forall>k r. tokens d k = Some r \<longrightarrow> users d (t_username r) \<noteq> None)"

section \<open>Request and response models\<close>

text \<open>
  \<^verbatim>\<open>MessageIn\<close>, \<^verbatim>\<open>AuthResponse\<close> and \<^verbatim>\<open>MessageOut\<close> of the source, and
  the row that the three \<^verbatim>\<open>SELECT\<close>s fetch: the columns of the message and
  \<^verbatim>\<open>u.is_human AS from_is_human\<close>, which may be \<^verbatim>\<open>NULL\<close>.
\<close>

record message_in =
  in_reply_to_message_id :: "int option"
  in_message :: string

record auth_response =
  token :: string
  expires :: timestamp

record fetched = message_row +
  fetched_is_human :: "bool option"

record message_out = message_row +
  from_is_human :: bool

text \<open>
  A handler either returns or raises. \<open>HTTPException\<close> carries the status code and the
  detail of the source; \<open>StoreError\<close> is an exception of the database driver (a violated
  constraint, a rejected statement or argument) and \<open>ResponseValidationError\<close> the
  one raised when what the handler returned does not fit its \<^verbatim>\<open>response_model\<close>;
  the framework answers both with status 500.
\<close>

datatype error = HTTPException nat string | StoreError | ResponseValidationError

fun status_code :: "error \<Rightarrow> nat" where
  "status_code (HTTPException c d) = c"
| "status_code StoreError = 500"
| "status_code ResponseValidationError = 500"

text \<open>
  A path parameter \<^verbatim>\<open>{name}\<close> of a route only matches a non-empty segment without
  a slash, so the handlers of \<^verbatim>\<open>/participants/{to_user}\<close> and
  \<^verbatim>\<open>/participants/{username}\<close> are only ever called with such a string.
\<close>

definition path_param :: "string \<Rightarrow> bool" where
  "path_param s \<longleftrightarrow> s \<noteq> [] \<and> CHR ''/'' \<notin> set s"

section \<open>Startup: seeding the users\<close>

text \<open>
  One element of the parsed \<^verbatim>\<open>USERS\<close> payload: a dict in which each of the three
  keys may be absent (\<open>None\<close>). Reading an absent key with \<^verbatim>\<open>entry["username"]\<close>
  raises \<^verbatim>\<open>KeyError\<close>; \<^verbatim>\<open>entry.get("is_human", True)\<close> falls back to \<open>True\<close>.
  The values that are present have the types of the columns they are written to: two
  strings, and a boolean or \<^verbatim>\<open>null\<close> (\<open>Some None\<close>), which is written as
  \<^verbatim>\<open>NULL\<close>.
\<close>

record entry =
  e_username :: "string option"
  e_codeword :: "string option"
  e_is_human :: "bool option option"

datatype py_exception = KeyError string | JSONDecodeError

text \<open>The body of the loop after the three reads: select, then update or insert.\<close>

definition upsert_user :: "db \<Rightarrow> string \<Rightarrow> string \<Rightarrow> bool option \<Rightarrow> db" where
  "upsert_user d username codeword is_human =
     (case users d username of
        Some existing \<Rightarrow>
          if u_codeword existing \<noteq> codeword
          then d\<lparr>users := (users d)(username \<mapsto> existing\<lparr>u_codeword := codeword\<rparr>)\<rparr>
          else d
      | None \<Rightarrow>
          d\<lparr>users := (users d)(username \<mapsto> \<lparr>u_codeword = codeword, u_is_human = is_human\<rparr>)\<rparr>)"

definition init_entry :: "db \<Rightarrow> entry \<Rightarrow> py_exception + db" where
  "init_entry d e =
     (case e_username e of
        None \<Rightarrow> Inl (KeyError ''username'')
      | Some username \<Rightarrow>
          (case e_codeword e of
             None \<Rightarrow> Inl (KeyError ''codeword'')
           | Some codeword \<Rightarrow>
               Inr (upsert_user d username codeword
                      (case e_is_human e of None \<Rightarrow> Some True | Some v \<Rightarrow> v))))"

text \<open>
  The \<^verbatim>\<open>for\<close> loop sits inside one \<^verbatim>\<open>try\<close>: the first exception leaves the loop
  and is handed to the \<^verbatim>\<open>except\<close> clause. Every statement is committed on its own,
  so the rows written before the exception stay.
\<close>

fun init_users :: "db \<Rightarrow> entry list \<Rightarrow> db \<times> py_exception option" where
  "init_users d [] = (d, None)"
| "init_users d (e # es) =
     (case init_entry d e of
        Inl x \<Rightarrow> (d, Some x)
      | Inr d' \<Rightarrow> init_users d' es)"

text \<open>
  \<open>lifespan\<close> up to its \<^verbatim>\<open>yield\<close>: the payload is \<open>None\<close> when
  \<^verbatim>\<open>json.loads\<close> raises. The result is the store the server starts with and the
  exception printed after \<^verbatim>\<open>[INIT USERS ERROR]\<close>, if any; the \<^verbatim>\<open>except\<close> clause
  catches every exception of the block, so the \<^verbatim>\<open>yield\<close> is always reached.
\<close>

definition lifespan :: "db \<Rightarrow> entry list option \<Rightarrow> db \<times> py_exception option" where
  "lifespan d parsed_users =
     (case parsed_users of
        None \<Rightarrow> (d, Some JSONDecodeError)
      | Some es \<Rightarrow> init_users d es)"


section \<open>Authentication\<close>

text \<open>
  The dependency \<open>verify_token\<close>: the header, when present, must start with
  \<^verbatim>\<open>Bearer \<close>; the rest of it is looked up, and the row is refused when its expiry
  is smaller than the clock.
\<close>

definition verify_token :: "db \<Rightarrow> timestamp \<Rightarrow> string option \<Rightarrow> error + string" where
  "verify_token d now authorization =
     (case authorization of
        None \<Rightarrow> Inl (HTTPException 401 ''Missing or invalid Authorization header'')
      | Some a \<Rightarrow>
          if a = [] \<or> take 7 a \<noteq> ''Bearer ''
          then Inl (HTTPException 401 ''Missing or invalid Authorization header'')
          else
            (case tokens d (drop 7 a) of
               None \<Rightarrow> Inl (HTTPException 401 ''Invalid or expired token'')
             | Some row \<Rightarrow>
                 if t_expires row < now
                 then Inl (HTTPException 401 ''Invalid or expired token'')
                 else Inr (t_username row)))"

text \<open>The header that presents the token \<open>tok\<close>.\<close>

definition bearer :: "string \<Rightarrow> string" where
  "bearer tok = ''Bearer '' @ tok"

definition timedelta_days :: "int \<Rightarrow> int" where
  "timedelta_days n = n * 86400000000"

text \<open>
  \<open>authenticate\<close>: \<open>rnd\<close> is the string drawn by \<^verbatim>\<open>secrets.token_hex(16)\<close>. The
  insert is refused by the primary key of \<^verbatim>\<open>tokens\<close> if that string is already a
  token.
\<close>

definition authenticate ::
  "db \<Rightarrow> timestamp \<Rightarrow> string \<Rightarrow> string \<Rightarrow> string \<Rightarrow> error + (db \<times> auth_response)" where
  "authenticate d now rnd username codeword =
     (case users d username of
        None \<Rightarrow> Inl (HTTPException 403 ''Invalid codeword'')
      | Some user \<Rightarrow>
          if u_codeword user \<noteq> codeword then Inl (HTTPException 403 ''Invalid codeword'')
          else
            (case tokens d rnd of
               Some _ \<Rightarrow> Inl StoreError
             | None \<Rightarrow>
                 Inr (d\<lparr>tokens := (tokens d)(rnd \<mapsto>
                          \<lparr>t_username = username, t_expires = now + timedelta_days 1\<rparr>)\<rparr>,
                      \<lparr>token = rnd, expires = now + timedelta_days 1\<rparr>)))"

section \<open>Sending\<close>

text \<open>
  The \<^verbatim>\<open>INSERT INTO messages\<close> of both senders. The statement is refused before
  any row is formed when an argument is not one the database accepts, or when the
  sequence behind \<^verbatim>\<open>message_id\<close> is exhausted. Otherwise the sequence hands out
  its next value, and the row is refused if its sender is not a user (foreign key) or its
  identifier is already there (primary key): the value drawn from the sequence is then
  lost.
\<close>

definition insert_refused :: "db \<Rightarrow> string \<Rightarrow> string option \<Rightarrow> string \<Rightarrow> int option \<Rightarrow> bool" where
  "insert_refused d sender recipient body reply_id \<longleftrightarrow>
     \<not> pg_text sender \<or> \<not> nullable pg_text recipient \<or> \<not> pg_text body \<or>
     \<not> nullable int4 reply_id \<or> 2147483647 < next_id d"

definition insert_violates :: "db \<Rightarrow> string \<Rightarrow> bool" where
  "insert_violates d sender \<longleftrightarrow>
     users d sender = None \<or> next_id d \<in> set (map message_id (messages d))"

definition insert_message ::
  "db \<Rightarrow> string \<Rightarrow> string option \<Rightarrow> string \<Rightarrow> timestamp \<Rightarrow> int option \<Rightarrow> error + db" where
  "insert_message d sender recipient body now reply_id =
     (if insert_refused d sender recipient body reply_id then Inl StoreError
      else if insert_violates d sender then Inl StoreError
      else Inr (d\<lparr>messages := messages d @
                    [\<lparr>message_id = next_id d, reply_to_message_id = reply_id,
                      from_username = sender, reply_to_username = recipient,
                      message = body, datetime = now\<rparr>],
                  next_id := next_id d + 1\<rparr>))"

text \<open>The store the statement leaves behind, whether it went through or not.\<close>

definition after_insert ::
  "db \<Rightarrow> string \<Rightarrow> string option \<Rightarrow> string \<Rightarrow> timestamp \<Rightarrow> int option \<Rightarrow> db" where
  "after_insert d sender recipient body now reply_id =
     (if insert_refused d sender recipient body reply_id then d
      else if insert_violates d sender then d\<lparr>next_id := next_id d + 1\<rparr>
      else d\<lparr>messages := messages d @
                [\<lparr>message_id = next_id d, reply_to_message_id = reply_id,
                  from_username = sender, reply_to_username = recipient,
                  message = body, datetime = now\<rparr>],
              next_id := next_id d + 1\<rparr>)"

text \<open>
  \<open>now\<close> is the clock read by \<open>verify_token\<close>, \<open>now'\<close> the one read for the row.
  \<open>send_broadcast\<close> does not name the column \<^verbatim>\<open>reply_to_username\<close>, which is
  then \<^verbatim>\<open>NULL\<close>.
\<close>

definition send_broadcast ::
  "db \<Rightarrow> timestamp \<Rightarrow> timestamp \<Rightarrow> string option \<Rightarrow> message_in \<Rightarrow> error + db" where
  "send_broadcast d now now' authorization msg =
     (case verify_token d now authorization of
        Inl e \<Rightarrow> Inl e
      | Inr from_user \<Rightarrow>
          insert_message d from_user None (in_message msg) now' (in_reply_to_message_id msg))"

definition send_direct ::
  "db \<Rightarrow> timestamp \<Rightarrow> timestamp \<Rightarrow> string option \<Rightarrow> string \<Rightarrow> message_in \<Rightarrow> error + db" where
  "send_direct d now now' authorization to_user msg =
     (case verify_token d now authorization of
        Inl e \<Rightarrow> Inl e
      | Inr from_user \<Rightarrow>
          insert_message d from_user (Some to_user) (in_message msg) now'
            (in_reply_to_message_id msg))"

section \<open>Reading\<close>

text \<open>
  The three \<^verbatim>\<open>SELECT\<close>s share their shape: the rows of \<^verbatim>\<open>messages\<close> that satisfy
  the \<^verbatim>\<open>WHERE\<close> clause, each joined with the row of its sender in \<^verbatim>\<open>users\<close>
  (a message without one is dropped by the inner join), ordered by \<^verbatim>\<open>message_id\<close>.
\<close>

definition fetch_row :: "message_row \<Rightarrow> user_row \<Rightarrow> fetched" where
  "fetch_row m u =
     \<lparr>message_id = message_id m, reply_to_message_id = reply_to_message_id m,
      from_username = from_username m, reply_to_username = reply_to_username m,
      message = message m, datetime = datetime m, fetched_is_human = u_is_human u\<rparr>"

definition join_user :: "db \<Rightarrow> message_row \<Rightarrow> fetched option" where
  "join_user d m = map_option (fetch_row m) (users d (from_username m))"

definition select_messages :: "db \<Rightarrow> (message_row \<Rightarrow> bool) \<Rightarrow> fetched list" where
  "select_messages d cond =
     sort_key message_id (List.map_filter (join_user d) (filter cond (messages d)))"

text \<open>
  \<^verbatim>\<open>LIMIT n\<close>: the driver sends \<open>n\<close> as a 64-bit integer, and the database rejects a
  negative one.
\<close>

definition limit_rows :: "int \<Rightarrow> 'a list \<Rightarrow> error + 'a list" where
  "limit_rows n rows =
     (if n < 0 \<or> \<not> int8 n then Inl StoreError else Inr (take (nat n) rows))"

text \<open>
  What \<^verbatim>\<open>response_model=List[MessageOut]\<close> does to the list of dicts the handler
  returns: every row must fit \<^verbatim>\<open>MessageOut\<close>, whose \<^verbatim>\<open>from_is_human: bool\<close>
  does not admit \<^verbatim>\<open>None\<close>; the other fields fit by the types of their columns.
\<close>

definition to_out :: "fetched \<Rightarrow> message_out option" where
  "to_out r =
     (case fetched_is_human r of
        None \<Rightarrow> None
      | Some b \<Rightarrow>
          Some \<lparr>message_id = message_id r, reply_to_message_id = reply_to_message_id r,
                from_username = from_username r, reply_to_username = reply_to_username r,
                message = message r, datetime = datetime r, from_is_human = b\<rparr>)"

fun response_model :: "fetched list \<Rightarrow> error + message_out list" where
  "response_model [] = Inr []"
| "response_model (r # rs) =
     (case to_out r of
        None \<Rightarrow> Inl ResponseValidationError
      | Some out \<Rightarrow>
          (case response_model rs of
             Inl e \<Rightarrow> Inl e
           | Inr outs \<Rightarrow> Inr (out # outs)))"

text \<open>
  An optional query parameter is \<open>None\<close> when the request does not carry it. The test
  \<^verbatim>\<open>if from_user:\<close> is Python's truth test: \<open>None\<close> and the empty string fail it.
\<close>

definition truthy :: "string option \<Rightarrow> bool" where
  "truthy p \<longleftrightarrow> (case p of None \<Rightarrow> False | Some s \<Rightarrow> s \<noteq> [])"

definition or_default :: "'a option \<Rightarrow> 'a \<Rightarrow> 'a" where
  "or_default p v = (case p of None \<Rightarrow> v | Some x \<Rightarrow> x)"

text \<open>
  \<open>get_all_messages\<close> builds the list of conditions, joined by \<^verbatim>\<open>AND\<close>. A
  comparison of a \<^verbatim>\<open>NULL\<close> recipient with a parameter is not true in SQL.
\<close>

definition conditions ::
  "int \<Rightarrow> string option \<Rightarrow> string option \<Rightarrow> (message_row \<Rightarrow> bool) list" where
  "conditions from_id from_user to_user =
     [\<lambda>m. message_id m > from_id]
     @ (if truthy from_user then [\<lambda>m. Some (from_username m) = from_user] else [])
     @ (if truthy to_user then [\<lambda>m. reply_to_username m = to_user] else [])"

text \<open>
  The arguments of the statement: the cursor is compared with an \<^verbatim>\<open>INTEGER\<close>
  column, the filters that pass the truth test with \<^verbatim>\<open>TEXT\<close> columns.
\<close>

definition get_all_messages ::
  "db \<Rightarrow> timestamp \<Rightarrow> string option \<Rightarrow> int option \<Rightarrow> string option \<Rightarrow> string option \<Rightarrow>
   int option \<Rightarrow> error + message_out list" where
  "get_all_messages d now authorization from_id from_user to_user limit =
     (case verify_token d now authorization of
        Inl e \<Rightarrow> Inl e
      | Inr auth_user \<Rightarrow>
          if \<not> int4 (or_default from_id 0) \<or> \<not> nullable pg_text from_user \<or>
             \<not> nullable pg_text to_user
          then Inl StoreError
          else
            (case limit_rows (or_default limit 100)
                    (select_messages d
                       (\<lambda>m. list_all (\<lambda>c. c m)
                          (conditions (or_default from_id 0) from_user to_user))) of
               Inl e \<Rightarrow> Inl e
             | Inr rows \<Rightarrow> response_model rows))"

definition get_broadcast ::
  "db \<Rightarrow> timestamp \<Rightarrow> string option \<Rightarrow> int option \<Rightarrow> error + message_out list" where
  "get_broadcast d now authorization from_id =
     (case verify_token d now authorization of
        Inl e \<Rightarrow> Inl e
      | Inr username \<Rightarrow>
          if \<not> int4 (or_default from_id 0) then Inl StoreError
          else
            response_model
              (select_messages d
                 (\<lambda>m. message_id m > or_default from_id 0 \<and>
                      (reply_to_username m = None \<or> reply_to_username m = Some []))))"

definition get_direct ::
  "db \<Rightarrow> timestamp \<Rightarrow> string option \<Rightarrow> string \<Rightarrow> int option \<Rightarrow> error + message_out list" where
  "get_direct d now authorization username from_id =
     (case verify_token d now authorization of
        Inl e \<Rightarrow> Inl e
      | Inr auth_user \<Rightarrow>
          if username \<noteq> auth_user
          then Inl (HTTPException 403 ''Can only request your own messages'')
          else if \<not> int4 (or_default from_id 0) \<or> \<not> pg_text username then Inl StoreError
          else
            response_model
              (select_messages d
                 (\<lambda>m. message_id m > or_default from_id 0 \<and>
                      reply_to_username m = Some username)))"



section \<open>The writing endpoints as a transition system\<close>

text \<open>
  The requests that change the store, with everything the handler reads: the clock
  values, the drawn token, the header, the path parameter and the body. A request whose
  handler raises leaves the tables as they were (the sequence may have moved on); a path
  that no route matches is answered by the router without calling a handler.
\<close>

datatype request =
    PostAuth timestamp string string string
  | PostParticipants timestamp timestamp "string option" message_in
  | PostParticipantsTo timestamp timestamp "string option" string message_in

fun apply_request :: "db \<Rightarrow> request \<Rightarrow> db" where
  "apply_request d (PostAuth now rnd username codeword) =
     (if path_param username
      then (case authenticate d now rnd username codeword of Inl e \<Rightarrow> d | Inr (d', r) \<Rightarrow> d')
      else d)"
| "apply_request d (PostParticipants now now' authorization msg) =
     (case verify_token d now authorization of
        Inl e \<Rightarrow> d
      | Inr from_user \<Rightarrow>
          after_insert d from_user None (in_message msg) now' (in_reply_to_message_id msg))"
| "apply_request d (PostParticipantsTo now now' authorization to_user msg) =
     (if path_param to_user
      then (case verify_token d now authorization of
              Inl e \<Rightarrow> d
            | Inr from_user \<Rightarrow>
                after_insert d from_user (Some to_user) (in_message msg) now'
                  (in_reply_to_message_id msg))
      else d)"

fun serve :: "db \<Rightarrow> request list \<Rightarrow> db" where
  "serve d [] = d"
| "serve d (r # rs) = serve (apply_request d r) rs"

section \<open>Sample stores\<close>

text \<open>
  The scenario of the specification, with a third user: alice, bob and eve each hold a
  token that expires at time 100, alice has posted a broadcast and bob a direct message
  to alice.
\<close>

definition alice_hi :: message_row where
  "alice_hi = \<lparr>message_id = 1, reply_to_message_id = None, from_username = ''alice'',
               reply_to_username = None, message = ''hi'', datetime = 5\<rparr>"

definition bob_yo :: message_row where
  "bob_yo = \<lparr>message_id = 2, reply_to_message_id = None, from_username = ''bob'',
             reply_to_username = Some ''alice'', message = ''yo'', datetime = 6\<rparr>"

definition eve_hey :: message_row where
  "eve_hey = \<lparr>message_id = 3, reply_to_message_id = Some 1, from_username = ''eve'',
              reply_to_username = None, message = ''hey'', datetime = 7\<rparr>"

definition demo_db :: db where
  "demo_db =
     \<lparr>users = [''alice'' \<mapsto> \<lparr>u_codeword = ''x'', u_is_human = Some True\<rparr>,
               ''bob'' \<mapsto> \<lparr>u_codeword = ''y'', u_is_human = Some False\<rparr>,
               ''eve'' \<mapsto> \<lparr>u_codeword = ''z'', u_is_human = Some True\<rparr>],
      tokens = [''ta'' \<mapsto> \<lparr>t_username = ''alice'', t_expires = 100\<rparr>,
                ''tb'' \<mapsto> \<lparr>t_username = ''bob'', t_expires = 100\<rparr>,
                ''te'' \<mapsto> \<lparr>t_username = ''eve'', t_expires = 100\<rparr>],
      messages = [alice_hi, bob_yo],
      next_id = 3\<rparr>"

text \<open>
  The same store a moment later, with a third message; the table is read in an order
  that is not the order of the identifiers.
\<close>

definition later_db :: db where
  "later_db = demo_db\<lparr>messages := [eve_hey, alice_hi, bob_yo], next_id := 4\<rparr>"

definition alice_hi_out :: message_out where
  "alice_hi_out =
     \<lparr>message_id = 1, reply_to_message_id = None, from_username = ''alice'',
      reply_to_username = None, message = ''hi'', datetime = 5, from_is_human = True\<rparr>"

definition bob_yo_out :: message_out where
  "bob_yo_out =
     \<lparr>message_id = 2, reply_to_message_id = None, from_username = ''bob'',
      reply_to_username = Some ''alice'', message = ''yo'', datetime = 6,
      from_is_human = False\<rparr>"

definition eve_hey_out :: message_out where
  "eve_hey_out =
     \<lparr>message_id = 3, reply_to_message_id = Some 1, from_username = ''eve'',
      reply_to_username = None, message = ''hey'', datetime = 7, from_is_human = True\<rparr>"




definition empty_db :: db where
  "empty_db = \<lparr>users = Map.empty, tokens = Map.empty, messages = [], next_id = 1\<rparr>"

section \<open>Token validation\<close>

lemma bearer_take: "take 7 (bearer tok) = ''Bearer ''"
  by (simp add: bearer_def)

lemma bearer_drop: "drop 7 (bearer tok) = tok"
  by (simp add: bearer_def)

lemma bearer_nonempty: "bearer tok \<noteq> []"
  by (simp add: bearer_def)

lemma bearer_split: "take 7 a = ''Bearer '' \<Longrightarrow> a = bearer (drop 7 a)"
  unfolding bearer_def by (metis append_take_drop_id)

lemma bearer_inject: "bearer s = bearer t \<longleftrightarrow> s = t"
  by (simp add: bearer_def)

lemma verify_token_bearer:
  "verify_token d now (Some (bearer tok)) =
     (case tokens d tok of
        None \<Rightarrow> Inl (HTTPException 401 ''Invalid or expired token'')
      | Some row \<Rightarrow>
          if t_expires row < now then Inl (HTTPException 401 ''Invalid or expired token'')
          else Inr (t_username row))"
  unfolding verify_token_def by (simp only: option.case bearer_take bearer_drop) (simp add: bearer_nonempty)

lemma verify_token_Inr_header:
  assumes "verify_token d now authorization = Inr u"
  shows "\<exists>tok. authorization = Some (bearer tok)"
proof (cases authorization)
  case None
  with assms show ?thesis by (simp add: verify_token_def)
next
  case (Some a)
  have "take 7 a = ''Bearer ''"
  proof (rule ccontr)
    assume "take 7 a \<noteq> ''Bearer ''"
    with assms Some show False
      unfolding verify_token_def by (simp only: option.case if_True simp_thms) simp
  qed
  then have "a = bearer (drop 7 a)" by (rule bearer_split)
  with Some show ?thesis by blast
qed

lemma verify_token_Inl:
  assumes "verify_token d now authorization = Inl e"
  shows "e = HTTPException 401 ''Missing or invalid Authorization header'' \<or>
         e = HTTPException 401 ''Invalid or expired token''"
  using assms unfolding verify_token_def
  by (auto split: option.splits if_splits)

lemma verify_token_Inr_iff:
  "verify_token d now authorization = Inr u \<longleftrightarrow>
     (\<exists>tok row. authorization = Some (bearer tok) \<and> tokens d tok = Some row \<and>
        t_username row = u \<and> now \<le> t_expires row)"
proof
  assume h: "verify_token d now authorization = Inr u"
  then obtain tok where a: "authorization = Some (bearer tok)"
    using verify_token_Inr_header by blast
  from h show "\<exists>tok row. authorization = Some (bearer tok) \<and> tokens d tok = Some row \<and>
        t_username row = u \<and> now \<le> t_expires row"
    unfolding a verify_token_bearer
    by (auto split: option.splits if_splits)
next
  assume "\<exists>tok row. authorization = Some (bearer tok) \<and> tokens d tok = Some row \<and>
        t_username row = u \<and> now \<le> t_expires row"
  then obtain tok row where a: "authorization = Some (bearer tok)"
    and r: "tokens d tok = Some row" "t_username row = u" "now \<le> t_expires row" by blast
  show "verify_token d now authorization = Inr u"
    unfolding a verify_token_bearer using r by simp
qed

lemma demo_tokens_ta: "tokens demo_db ''ta'' = Some \<lparr>t_username = ''alice'', t_expires = 100\<rparr>"
  by (simp add: demo_db_def)

lemma demo_tokens_tb: "tokens demo_db ''tb'' = Some \<lparr>t_username = ''bob'', t_expires = 100\<rparr>"
  by (simp add: demo_db_def)

lemma demo_verify_alice: "now \<le> 100 \<Longrightarrow> verify_token demo_db now (Some (bearer ''ta'')) = Inr ''alice''"
  using verify_token_bearer [of demo_db now "''ta''"] by (simp add: demo_tokens_ta)

lemma demo_verify_bob: "now \<le> 100 \<Longrightarrow> verify_token demo_db now (Some (bearer ''tb'')) = Inr ''bob''"
  using verify_token_bearer [of demo_db now "''tb''"] by (simp add: demo_tokens_tb)

lemma demo_tokens_te: "tokens demo_db ''te'' = Some \<lparr>t_username = ''eve'', t_expires = 100\<rparr>"
  by (simp add: demo_db_def)

lemma demo_verify_eve: "now \<le> 100 \<Longrightarrow> verify_token demo_db now (Some (bearer ''te'')) = Inr ''eve''"
  using verify_token_bearer [of demo_db now "''te''"] by (simp add: demo_tokens_te)

lemma unauthenticated_everywhere:
  assumes "verify_token d now authorization = Inl e"
  shows "get_all_messages d now authorization from_id from_user to_user limit = Inl e"
    and "get_broadcast d now authorization from_id = Inl e"
    and "get_direct d now authorization username from_id = Inl e"
    and "send_broadcast d now now' authorization msg = Inl e"
    and "send_direct d now now' authorization recipient msg = Inl e"
  using assms
  by (simp_all add: get_all_messages_def get_broadcast_def get_direct_def send_broadcast_def
      send_direct_def)

text \<open>
  C3, as the code has it. \<open>verify_token\<close> returns the owner of the presented token
  exactly when the header is \<^verbatim>\<open>Bearer \<close> followed by a token of the store whose
  expiry is not before the clock (\<open>now \<le> expires\<close>: the test of the source is
  \<^verbatim>\<open>row["expires"] < now\<close>, so the very instant of expiry is still accepted); every
  other call raises with status 401, and so does each of the five handlers that depend
  on it, which check the stored expiry anew at every request. In particular a token
  whose expiry is in the past is refused.
\<close>

theorem verify_token_valid_iff:
  "(verify_token d now authorization = Inr u \<longleftrightarrow>
      (\<exists>tok row. authorization = Some (bearer tok) \<and> tokens d tok = Some row \<and>
         t_username row = u \<and> now \<le> t_expires row)) \<and>
   (\<forall>e. verify_token d now authorization = Inl e \<longrightarrow>
      status_code e = 401 \<and>
      get_all_messages d now authorization from_id from_user to_user limit = Inl e \<and>
      get_broadcast d now authorization from_id = Inl e \<and>
      get_direct d now authorization username from_id = Inl e \<and>
      send_broadcast d now now' authorization msg = Inl e \<and>
      send_direct d now now' authorization recipient msg = Inl e) \<and>
   (\<forall>tok row. tokens d tok = Some row \<and> t_expires row < now \<longrightarrow>
      verify_token d now (Some (bearer tok)) =
        Inl (HTTPException 401 ''Invalid or expired token''))"
proof (intro conjI allI impI)
  show "verify_token d now authorization = Inr u \<longleftrightarrow>
      (\<exists>tok row. authorization = Some (bearer tok) \<and> tokens d tok = Some row \<and>
         t_username row = u \<and> now \<le> t_expires row)"
    by (rule verify_token_Inr_iff)
next
  fix e assume e: "verify_token d now authorization = Inl e"
  from verify_token_Inl [OF e] show "status_code e = 401" by auto
  from e show "get_all_messages d now authorization from_id from_user to_user limit = Inl e"
    by (rule unauthenticated_everywhere)
  from e show "get_broadcast d now authorization from_id = Inl e"
    by (rule unauthenticated_everywhere)
  from e show "get_direct d now authorization username from_id = Inl e"
    by (rule unauthenticated_everywhere)
  from e show "send_broadcast d now now' authorization msg = Inl e"
    by (rule unauthenticated_everywhere)
  from e show "send_direct d now now' authorization recipient msg = Inl e"
    by (rule unauthenticated_everywhere)
next
  fix tok row assume "tokens d tok = Some row \<and> t_expires row < now"
  then show "verify_token d now (Some (bearer tok)) =
        Inl (HTTPException 401 ''Invalid or expired token'')"
    by (simp add: verify_token_bearer)
qed

theorem verify_token_valid_iff_witness:
  "verify_token demo_db 100 (Some (bearer ''ta'')) = Inr ''alice'' \<and>
   verify_token demo_db 101 (Some (bearer ''ta'')) =
     Inl (HTTPException 401 ''Invalid or expired token'') \<and>
   status_code (HTTPException 401 ''Invalid or expired token'') = 401"
proof -
  have a: "\<exists>tok row. Some (bearer ''ta'') = Some (bearer tok) \<and>
             tokens demo_db tok = Some row \<and> t_username row = ''alice'' \<and> 100 \<le> t_expires row"
    by (rule exI [of _ "''ta''"]) (simp add: demo_tokens_ta)
  have b: "tokens demo_db ''ta'' = Some \<lparr>t_username = ''alice'', t_expires = 100\<rparr> \<and>
           t_expires \<lparr>t_username = ''alice'', t_expires = 100\<rparr> < 101"
    by (simp add: demo_tokens_ta)
  from verify_token_valid_iff [of demo_db 100 "Some (bearer ''ta'')" "''alice''"] a
  have "verify_token demo_db 100 (Some (bearer ''ta'')) = Inr ''alice''" by blast
  moreover from verify_token_valid_iff [of demo_db 101 "Some (bearer ''ta'')" "''alice''"] b
  have "verify_token demo_db 101 (Some (bearer ''ta'')) =
     Inl (HTTPException 401 ''Invalid or expired token'')" by simp
  ultimately show ?thesis by simp
qed

text \<open>
  The boundary \<open>now < expires\<close> of the specification fails at the instant of expiry:
  the token \<open>ta\<close> expires at 100 and is accepted at 100.
\<close>

theorem verify_token_at_expiry_counterexample:
  "verify_token demo_db 100 (Some (bearer ''ta'')) = Inr ''alice'' \<and>
   map_option t_expires (tokens demo_db ''ta'') = Some 100 \<and> \<not> (100 < (100::int))"
  using demo_verify_alice [of 100] by (simp add: demo_tokens_ta)

section \<open>The selects\<close>

lemma fetch_row_fields:
  "message_id (fetch_row m s) = message_id m"
  "reply_to_message_id (fetch_row m s) = reply_to_message_id m"
  "from_username (fetch_row m s) = from_username m"
  "reply_to_username (fetch_row m s) = reply_to_username m"
  "message (fetch_row m s) = message m"
  "datetime (fetch_row m s) = datetime m"
  "fetched_is_human (fetch_row m s) = u_is_human s"
  by (simp_all add: fetch_row_def)

lemma in_map_filter_join:
  "r \<in> set (List.map_filter (join_user d) ms) \<longleftrightarrow>
     (\<exists>m s. r = fetch_row m s \<and> m \<in> set ms \<and> users d (from_username m) = Some s)"
  by (induction ms) (auto simp: map_filter_simps join_user_def split: option.splits)

lemma set_map_filter_join:
  "set (List.map_filter (join_user d) ms) =
     {fetch_row m s | m s. m \<in> set ms \<and> users d (from_username m) = Some s}"
  using in_map_filter_join by blast

lemma set_select_messages:
  "set (select_messages d cond) =
     {fetch_row m s | m s. m \<in> set (messages d) \<and> cond m \<and> users d (from_username m) = Some s}"
  unfolding select_messages_def set_sort set_map_filter_join by auto

lemma ids_map_filter_join:
  "map message_id (List.map_filter (join_user d) ms) =
     map message_id (filter (\<lambda>m. users d (from_username m) \<noteq> None) ms)"
  by (induction ms) (auto simp: List.map_filter_def join_user_def fetch_row_fields)

lemma sorted_select_messages: "sorted (map message_id (select_messages d cond))"
  unfolding select_messages_def by (rule sorted_sort_key)

lemma distinct_join:
  assumes "distinct (map message_id ms)"
  shows "distinct (map message_id (List.map_filter (join_user d) (filter cond ms)))"
  unfolding ids_map_filter_join using assms by (simp add: distinct_map_filter)

lemma distinct_select_messages:
  assumes "distinct (map message_id (messages d))"
  shows "distinct (map message_id (select_messages d cond))"
proof -
  let ?rows = "List.map_filter (join_user d) (filter cond (messages d))"
  have "distinct (map message_id ?rows)" using assms by (rule distinct_join)
  then have "distinct ?rows" and "inj_on message_id (set ?rows)"
    by (simp_all add: distinct_map)
  then show ?thesis
    unfolding select_messages_def by (simp add: distinct_map)
qed

lemma strictly_ascending_select_messages:
  assumes "distinct (map message_id (messages d))"
  shows "sorted_wrt (<) (map message_id (select_messages d cond))"
  using sorted_select_messages distinct_select_messages [OF assms]
  by (simp add: strict_sorted_iff)

lemma length_select_messages: "length (select_messages d cond) \<le> length (messages d)"
proof -
  have "length (List.map_filter (join_user d) (filter cond (messages d))) \<le>
        length (filter cond (messages d))"
    unfolding List.map_filter_def length_map by (rule length_filter_le)
  also have "\<dots> \<le> length (messages d)" by (rule length_filter_le)
  finally show ?thesis by (simp add: select_messages_def)
qed


lemma limit_rows_Inr:
  assumes "limit_rows n rows = Inr out"
  shows "0 \<le> n" and "out = take (nat n) rows"
  using assms by (simp_all add: limit_rows_def split: if_splits)

lemma ids_take: "map message_id (take k rows) = take k (map message_id rows)"
  by (simp add: take_map)

lemma conditions_cursor:
  "list_all (\<lambda>c. c m) (conditions from_id from_user to_user) \<Longrightarrow> from_id < message_id m"
  by (simp add: conditions_def)

section \<open>The response model\<close>

lemma to_out_Some:
  assumes "to_out f = Some r"
  shows "message_id r = message_id f" and "reply_to_message_id r = reply_to_message_id f"
    and "from_username r = from_username f" and "reply_to_username r = reply_to_username f"
    and "message r = message f" and "datetime r = datetime f"
    and "fetched_is_human f = Some (from_is_human r)"
  using assms by (auto simp: to_out_def split: option.splits)


lemma response_model_Inr:
  "response_model fs = Inr rows \<Longrightarrow> map to_out fs = map Some rows"
  by (induction fs arbitrary: rows) (auto split: option.splits sum.splits)


lemma response_model_length:
  assumes "response_model fs = Inr rows"
  shows "length rows = length fs"
  using arg_cong [OF response_model_Inr [OF assms], of length] by simp

lemma response_model_ids:
  "response_model fs = Inr rows \<Longrightarrow> map message_id rows = map message_id fs"
  by (induction fs arbitrary: rows) (auto split: option.splits sum.splits dest: to_out_Some(1))

lemma response_model_set:
  "response_model fs = Inr rows \<Longrightarrow> r \<in> set rows \<longleftrightarrow> (\<exists>f \<in> set fs. to_out f = Some r)"
  by (induction fs arbitrary: rows) (auto split: option.splits sum.splits)





section \<open>The sample stores, evaluated\<close>

lemma verify_token_tokens:
  assumes "tokens d' = tokens d"
  shows "verify_token d' now authorization = verify_token d now authorization"
  unfolding verify_token_def assms by (rule refl)

lemma later_verify:
  "verify_token later_db now authorization = verify_token demo_db now authorization"
  by (rule verify_token_tokens) (simp add: later_db_def)

lemma demo_users_alice:
  "users demo_db ''alice'' = Some \<lparr>u_codeword = ''x'', u_is_human = Some True\<rparr>"
  by (simp add: demo_db_def)

lemma demo_users_bob:
  "users demo_db ''bob'' = Some \<lparr>u_codeword = ''y'', u_is_human = Some False\<rparr>"
  by (simp add: demo_db_def)

lemma demo_users_eve:
  "users demo_db ''eve'' = Some \<lparr>u_codeword = ''z'', u_is_human = Some True\<rparr>"
  by (simp add: demo_db_def)

lemma demo_messages: "messages demo_db = [alice_hi, bob_yo]"
  by (simp add: demo_db_def)

lemma later_messages: "messages later_db = [eve_hey, alice_hi, bob_yo]"
  by (simp add: later_db_def)

lemma later_users: "users later_db = users demo_db"
  by (simp add: later_db_def)

lemma demo_joined:
  "join_user demo_db alice_hi = Some (fetch_row alice_hi \<lparr>u_codeword = ''x'', u_is_human = Some True\<rparr>)"
  "join_user demo_db bob_yo = Some (fetch_row bob_yo \<lparr>u_codeword = ''y'', u_is_human = Some False\<rparr>)"
  "join_user demo_db eve_hey = Some (fetch_row eve_hey \<lparr>u_codeword = ''z'', u_is_human = Some True\<rparr>)"
  by (simp_all add: join_user_def demo_users_alice demo_users_bob demo_users_eve
      alice_hi_def bob_yo_def eve_hey_def)

lemma later_joined: "join_user later_db m = join_user demo_db m"
  by (simp add: join_user_def later_users)

lemma demo_ids: "message_id alice_hi = 1" "message_id bob_yo = 2" "message_id eve_hey = 3"
  by (simp_all add: alice_hi_def bob_yo_def eve_hey_def)

lemma demo_to_out:
  "to_out (fetch_row alice_hi \<lparr>u_codeword = ''x'', u_is_human = Some True\<rparr>) = Some alice_hi_out"
  "to_out (fetch_row bob_yo \<lparr>u_codeword = ''y'', u_is_human = Some False\<rparr>) = Some bob_yo_out"
  "to_out (fetch_row eve_hey \<lparr>u_codeword = ''z'', u_is_human = Some True\<rparr>) = Some eve_hey_out"
  by (simp_all add: to_out_def fetch_row_def alice_hi_def bob_yo_def eve_hey_def
      alice_hi_out_def bob_yo_out_def eve_hey_out_def)

lemma demo_select_all:
  assumes "cond alice_hi" and "cond bob_yo"
  shows "select_messages demo_db cond =
     [fetch_row alice_hi \<lparr>u_codeword = ''x'', u_is_human = Some True\<rparr>,
      fetch_row bob_yo \<lparr>u_codeword = ''y'', u_is_human = Some False\<rparr>]"
  using assms
  by (simp add: select_messages_def demo_messages List.map_filter_def demo_joined
      fetch_row_fields demo_ids)

lemma demo_select_second:
  assumes "\<not> cond alice_hi" and "cond bob_yo"
  shows "select_messages demo_db cond =
     [fetch_row bob_yo \<lparr>u_codeword = ''y'', u_is_human = Some False\<rparr>]"
  using assms
  by (simp add: select_messages_def demo_messages List.map_filter_def demo_joined)


lemma later_select_all:
  assumes "cond eve_hey" and "cond alice_hi" and "cond bob_yo"
  shows "select_messages later_db cond =
     [fetch_row alice_hi \<lparr>u_codeword = ''x'', u_is_human = Some True\<rparr>,
      fetch_row bob_yo \<lparr>u_codeword = ''y'', u_is_human = Some False\<rparr>,
      fetch_row eve_hey \<lparr>u_codeword = ''z'', u_is_human = Some True\<rparr>]"
  using assms
  by (simp add: select_messages_def later_messages List.map_filter_def later_joined demo_joined
      fetch_row_fields demo_ids)

lemma later_select_above_first:
  assumes "cond eve_hey" and "\<not> cond alice_hi" and "cond bob_yo"
  shows "select_messages later_db cond =
     [fetch_row bob_yo \<lparr>u_codeword = ''y'', u_is_human = Some False\<rparr>,
      fetch_row eve_hey \<lparr>u_codeword = ''z'', u_is_human = Some True\<rparr>]"
  using assms
  by (simp add: select_messages_def later_messages List.map_filter_def later_joined demo_joined
      fetch_row_fields demo_ids)

lemma demo_db_distinct: "distinct (map message_id (messages demo_db))"
  by (simp add: demo_messages demo_ids)

lemma later_db_distinct: "distinct (map message_id (messages later_db))"
  by (simp add: later_messages demo_ids)

lemma demo_out_ids:
  "message_id alice_hi_out = 1" "message_id bob_yo_out = 2" "message_id eve_hey_out = 3"
  by (simp_all add: alice_hi_out_def bob_yo_out_def eve_hey_out_def)

lemma demo_out_senders:
  "from_username alice_hi_out = ''alice''" "from_username bob_yo_out = ''bob''"
  by (simp_all add: alice_hi_out_def bob_yo_out_def)

lemma demo_out_recipients:
  "reply_to_username alice_hi_out = None" "reply_to_username bob_yo_out = Some ''alice''"
  by (simp_all add: alice_hi_out_def bob_yo_out_def)



lemma names_are_text: "pg_text ''alice''" "pg_text ''bob''" "pg_text ''eve''" "pg_text []"
  by (simp_all add: pg_text_def)

section \<open>The generic feed\<close>

lemma get_all_messages_authenticated:
  assumes "verify_token d now authorization = Inr auth_user"
  shows "get_all_messages d now authorization from_id from_user to_user limit =
     (if \<not> int4 (or_default from_id 0) \<or> \<not> nullable pg_text from_user \<or>
         \<not> nullable pg_text to_user
      then Inl StoreError
      else
        (case limit_rows (or_default limit 100)
                (select_messages d
                   (\<lambda>m. list_all (\<lambda>c. c m)
                      (conditions (or_default from_id 0) from_user to_user))) of
           Inl e \<Rightarrow> Inl e
         | Inr rows \<Rightarrow> response_model rows))"
  using assms by (simp add: get_all_messages_def)

lemma get_all_messages_Inr:
  assumes "get_all_messages d now authorization from_id from_user to_user limit = Inr rows"
  shows "\<exists>auth_user. verify_token d now authorization = Inr auth_user"
    and "0 \<le> or_default limit 100"
    and "response_model
           (take (nat (or_default limit 100))
              (select_messages d
                 (\<lambda>m. list_all (\<lambda>c. c m)
                    (conditions (or_default from_id 0) from_user to_user)))) = Inr rows"
proof -
  let ?sel = "select_messages d
     (\<lambda>m. list_all (\<lambda>c. c m) (conditions (or_default from_id 0) from_user to_user))"
  from assms show v: "\<exists>auth_user. verify_token d now authorization = Inr auth_user"
    by (cases "verify_token d now authorization") (simp_all add: get_all_messages_def)
  then obtain auth_user where "verify_token d now authorization = Inr auth_user" ..
  from assms [unfolded get_all_messages_authenticated [OF this]]
  obtain fs where l: "limit_rows (or_default limit 100) ?sel = Inr fs"
    and r: "response_model fs = Inr rows"
    by (auto split: if_splits sum.splits)
  from limit_rows_Inr [OF l] r
  show "0 \<le> or_default limit 100"
    and "response_model (take (nat (or_default limit 100)) ?sel) = Inr rows"
    by simp_all
qed

lemma get_all_messages_row:
  assumes "get_all_messages d now authorization from_id from_user to_user limit = Inr rows"
    and "r \<in> set rows"
  shows "\<exists>m s. m \<in> set (messages d) \<and> users d (from_username m) = Some s \<and>
           list_all (\<lambda>c. c m) (conditions (or_default from_id 0) from_user to_user) \<and>
           to_out (fetch_row m s) = Some r"
proof -
  let ?sel = "select_messages d
     (\<lambda>m. list_all (\<lambda>c. c m) (conditions (or_default from_id 0) from_user to_user))"
  from response_model_set [OF get_all_messages_Inr(3) [OF assms(1)]] assms(2)
  obtain f where "f \<in> set (take (nat (or_default limit 100)) ?sel)" and f: "to_out f = Some r"
    by blast
  then have "f \<in> set ?sel" by (blast dest: in_set_takeD)
  then obtain m s where "f = fetch_row m s" "m \<in> set (messages d)"
    "users d (from_username m) = Some s"
    "list_all (\<lambda>c. c m) (conditions (or_default from_id 0) from_user to_user)"
    unfolding set_select_messages by blast
  with f show ?thesis by blast
qed

text \<open>
  C1. Whenever a call of \<open>get_all_messages\<close> with cursor \<open>X\<close> (0 when the request
  has none) and limit \<open>L\<close> (100 when the request has none) returns a list, the caller's
  token was valid, every message of the list has an identifier above \<open>X\<close>, the list is
  in ascending order of \<open>message_id\<close> (strictly, identifiers being a primary key), and
  it has at most \<open>L\<close> elements.
\<close>

theorem get_all_messages_cursor_order_limit:
  assumes "get_all_messages d now authorization from_id from_user to_user limit = Inr rows"
  shows "(\<exists>auth_user. verify_token d now authorization = Inr auth_user) \<and>
         (\<forall>r \<in> set rows. or_default from_id 0 < message_id r) \<and>
         sorted (map message_id rows) \<and>
         (distinct (map message_id (messages d)) \<longrightarrow> sorted_wrt (<) (map message_id rows)) \<and>
         int (length rows) \<le> or_default limit 100"
proof (intro conjI impI)
  let ?L = "or_default limit 100"
  let ?sel = "select_messages d
     (\<lambda>m. list_all (\<lambda>c. c m) (conditions (or_default from_id 0) from_user to_user))"
  note inr = get_all_messages_Inr [OF assms]
  show "\<exists>auth_user. verify_token d now authorization = Inr auth_user" by (rule inr(1))
  have ids: "map message_id rows = take (nat ?L) (map message_id ?sel)"
    using response_model_ids [OF inr(3)] by (simp add: ids_take)
  have "length rows = length (take (nat ?L) ?sel)"
    by (rule response_model_length [OF inr(3)])
  with inr(2) show "int (length rows) \<le> ?L" by simp
  show "sorted (map message_id rows)"
    unfolding ids by (rule sorted_wrt_take) (rule sorted_select_messages)
  show "sorted_wrt (<) (map message_id rows)" if "distinct (map message_id (messages d))"
    unfolding ids using that
    by (intro sorted_wrt_take strictly_ascending_select_messages)
  show "\<forall>r \<in> set rows. or_default from_id 0 < message_id r"
  proof
    fix r assume "r \<in> set rows"
    from get_all_messages_row [OF assms this] obtain m s where
      "list_all (\<lambda>c. c m) (conditions (or_default from_id 0) from_user to_user)"
      and "to_out (fetch_row m s) = Some r" by blast
    then show "or_default from_id 0 < message_id r"
      by (simp add: conditions_cursor to_out_Some(1) fetch_row_fields)
  qed
qed

lemma later_feed_two:
  "get_all_messages later_db 0 (Some (bearer ''ta'')) (Some 0) None None (Some 2) =
     Inr [alice_hi_out, bob_yo_out]"
proof -
  have v: "verify_token later_db 0 (Some (bearer ''ta'')) = Inr ''alice''"
    by (simp add: later_verify demo_verify_alice)
  have sel: "select_messages later_db
       (\<lambda>m. list_all (\<lambda>c. c m) (conditions (or_default (Some 0) 0) None None)) =
     [fetch_row alice_hi \<lparr>u_codeword = ''x'', u_is_human = Some True\<rparr>,
      fetch_row bob_yo \<lparr>u_codeword = ''y'', u_is_human = Some False\<rparr>,
      fetch_row eve_hey \<lparr>u_codeword = ''z'', u_is_human = Some True\<rparr>]"
    by (rule later_select_all)
      (simp_all add: conditions_def truthy_def or_default_def demo_ids)
  show ?thesis
    unfolding get_all_messages_authenticated [OF v] sel
    by (simp add: limit_rows_def or_default_def int4_def int8_def nullable_def demo_to_out)
qed

lemma later_feed_one:
  "get_all_messages later_db 0 (Some (bearer ''ta'')) (Some 1) None None (Some 1) =
     Inr [bob_yo_out]"
proof -
  have v: "verify_token later_db 0 (Some (bearer ''ta'')) = Inr ''alice''"
    by (simp add: later_verify demo_verify_alice)
  have sel: "select_messages later_db
       (\<lambda>m. list_all (\<lambda>c. c m) (conditions (or_default (Some 1) 0) None None)) =
     [fetch_row bob_yo \<lparr>u_codeword = ''y'', u_is_human = Some False\<rparr>,
      fetch_row eve_hey \<lparr>u_codeword = ''z'', u_is_human = Some True\<rparr>]"
    by (rule later_select_above_first)
      (simp_all add: conditions_def truthy_def or_default_def demo_ids)
  show ?thesis
    unfolding get_all_messages_authenticated [OF v] sel
    by (simp add: limit_rows_def or_default_def int4_def int8_def nullable_def demo_to_out)
qed

text \<open>
  The table holds the third message before the first two. With cursor 0 and limit 2 the
  answer is the first two messages in order, the third being cut off; with cursor 1 and
  limit 1 it is the second alone.
\<close>

theorem get_all_messages_cursor_order_limit_witness:
  "messages later_db = [eve_hey, alice_hi, bob_yo] \<and>
   map message_id (messages later_db) = [3, 1, 2] \<and>
   get_all_messages later_db 0 (Some (bearer ''ta'')) (Some 0) None None (Some 2) =
     Inr [alice_hi_out, bob_yo_out] \<and>
   map message_id [alice_hi_out, bob_yo_out] = [1, 2] \<and>
   sorted_wrt (<) (map message_id [alice_hi_out, bob_yo_out]) \<and>
   int (length [alice_hi_out, bob_yo_out]) \<le> or_default (Some 2) 100 \<and>
   get_all_messages later_db 0 (Some (bearer ''ta'')) (Some 1) None None (Some 1) =
     Inr [bob_yo_out] \<and>
   or_default (Some 1) 0 < message_id bob_yo_out \<and>
   int (length [bob_yo_out]) \<le> or_default (Some 1) 100"
proof -
  note two = get_all_messages_cursor_order_limit [OF later_feed_two]
    and one = get_all_messages_cursor_order_limit [OF later_feed_one]
  from two later_db_distinct
  have "sorted_wrt (<) (map message_id [alice_hi_out, bob_yo_out])"
    and "int (length [alice_hi_out, bob_yo_out]) \<le> or_default (Some 2) 100"
    by blast+
  moreover from one
  have "or_default (Some 1) 0 < message_id bob_yo_out"
    and "int (length [bob_yo_out]) \<le> or_default (Some 1) 100"
    by simp_all
  ultimately show ?thesis
    using later_feed_two later_feed_one
    by (simp add: later_messages demo_ids demo_out_ids)
qed

lemma conditions_from_user:
  assumes "list_all (\<lambda>c. c m) (conditions from_id (Some v) to_user)" and "v \<noteq> []"
  shows "from_username m = v"
  using assms by (simp add: conditions_def truthy_def)

lemma conditions_to_user:
  assumes "list_all (\<lambda>c. c m) (conditions from_id from_user (Some v))" and "v \<noteq> []"
  shows "reply_to_username m = Some v"
  using assms by (simp add: conditions_def truthy_def)

lemma conditions_empty_from_user:
  "conditions from_id (Some []) to_user = conditions from_id None to_user"
  by (simp add: conditions_def truthy_def)

lemma conditions_empty_to_user:
  "conditions from_id from_user (Some []) = conditions from_id from_user None"
  by (simp add: conditions_def truthy_def)

lemma nullable_empty: "nullable pg_text (Some []) = nullable pg_text None"
  by (simp add: nullable_def pg_text_def)

text \<open>
  C5, as the code has it. A filter value that is not the empty string is matched exactly:
  with \<open>from_user = v\<close> every returned message has \<open>from_username = v\<close>, with
  \<open>to_user = v\<close> every returned message has \<open>reply_to_username = v\<close>. The empty
  string does not pass the truth test that guards each filter, and the call answers as
  if the parameter had not been supplied.
\<close>

theorem get_all_messages_filters:
  "(\<forall>rows v. get_all_messages d now authorization from_id (Some v) to_user limit = Inr rows \<and>
       v \<noteq> [] \<longrightarrow> (\<forall>r \<in> set rows. from_username r = v)) \<and>
   (\<forall>rows v. get_all_messages d now authorization from_id from_user (Some v) limit = Inr rows \<and>
       v \<noteq> [] \<longrightarrow> (\<forall>r \<in> set rows. reply_to_username r = Some v)) \<and>
   get_all_messages d now authorization from_id (Some []) to_user limit =
     get_all_messages d now authorization from_id None to_user limit \<and>
   get_all_messages d now authorization from_id from_user (Some []) limit =
     get_all_messages d now authorization from_id from_user None limit"
proof (intro conjI allI impI ballI)
  fix rows v r
  assume h: "get_all_messages d now authorization from_id (Some v) to_user limit = Inr rows \<and>
       v \<noteq> []" and r: "r \<in> set rows"
  from h have "get_all_messages d now authorization from_id (Some v) to_user limit = Inr rows"
    by simp
  from get_all_messages_row [OF this r] obtain m s where
    "list_all (\<lambda>c. c m) (conditions (or_default from_id 0) (Some v) to_user)"
    and "to_out (fetch_row m s) = Some r" by blast
  with h show "from_username r = v"
    by (simp add: conditions_from_user to_out_Some(3) fetch_row_fields)
next
  fix rows v r
  assume h: "get_all_messages d now authorization from_id from_user (Some v) limit = Inr rows \<and>
       v \<noteq> []" and r: "r \<in> set rows"
  from h have "get_all_messages d now authorization from_id from_user (Some v) limit = Inr rows"
    by simp
  from get_all_messages_row [OF this r] obtain m s where
    "list_all (\<lambda>c. c m) (conditions (or_default from_id 0) from_user (Some v))"
    and "to_out (fetch_row m s) = Some r" by blast
  with h show "reply_to_username r = Some v"
    by (simp add: conditions_to_user to_out_Some(4) fetch_row_fields)
next
  show "get_all_messages d now authorization from_id (Some []) to_user limit =
     get_all_messages d now authorization from_id None to_user limit"
    unfolding get_all_messages_def conditions_empty_from_user nullable_empty by (rule refl)
next
  show "get_all_messages d now authorization from_id from_user (Some []) limit =
     get_all_messages d now authorization from_id from_user None limit"
    unfolding get_all_messages_def conditions_empty_to_user nullable_empty by (rule refl)
qed

lemma demo_feed_from_bob:
  "get_all_messages demo_db 0 (Some (bearer ''ta'')) None (Some ''bob'') None None =
     Inr [bob_yo_out]"
proof -
  have v: "verify_token demo_db 0 (Some (bearer ''ta'')) = Inr ''alice''"
    by (simp add: demo_verify_alice)
  have sel: "select_messages demo_db
       (\<lambda>m. list_all (\<lambda>c. c m) (conditions (or_default None 0) (Some ''bob'') None)) =
     [fetch_row bob_yo \<lparr>u_codeword = ''y'', u_is_human = Some False\<rparr>]"
    by (rule demo_select_second)
      (simp_all add: conditions_def truthy_def or_default_def alice_hi_def bob_yo_def)
  show ?thesis
    unfolding get_all_messages_authenticated [OF v] sel
    by (simp add: limit_rows_def or_default_def int4_def int8_def nullable_def names_are_text
        demo_to_out)
qed

lemma demo_feed_to_alice:
  assumes "verify_token demo_db now authorization = Inr u"
  shows "get_all_messages demo_db now authorization None None (Some ''alice'') None =
     Inr [bob_yo_out]"
proof -
  have sel: "select_messages demo_db
       (\<lambda>m. list_all (\<lambda>c. c m) (conditions (or_default None 0) None (Some ''alice''))) =
     [fetch_row bob_yo \<lparr>u_codeword = ''y'', u_is_human = Some False\<rparr>]"
    by (rule demo_select_second)
      (simp_all add: conditions_def truthy_def or_default_def alice_hi_def bob_yo_def)
  show ?thesis
    unfolding get_all_messages_authenticated [OF assms] sel
    by (simp add: limit_rows_def or_default_def int4_def int8_def nullable_def names_are_text
        demo_to_out)
qed

lemma demo_feed_unfiltered:
  assumes "verify_token demo_db now authorization = Inr u"
  shows "get_all_messages demo_db now authorization None None None None =
     Inr [alice_hi_out, bob_yo_out]"
proof -
  have sel: "select_messages demo_db
       (\<lambda>m. list_all (\<lambda>c. c m) (conditions (or_default None 0) None None)) =
     [fetch_row alice_hi \<lparr>u_codeword = ''x'', u_is_human = Some True\<rparr>,
      fetch_row bob_yo \<lparr>u_codeword = ''y'', u_is_human = Some False\<rparr>]"
    by (rule demo_select_all)
      (simp_all add: conditions_def truthy_def or_default_def alice_hi_def bob_yo_def)
  show ?thesis
    unfolding get_all_messages_authenticated [OF assms] sel
    by (simp add: limit_rows_def or_default_def int4_def int8_def nullable_def demo_to_out)
qed

theorem get_all_messages_filters_witness:
  "get_all_messages demo_db 0 (Some (bearer ''ta'')) None (Some ''bob'') None None =
     Inr [bob_yo_out] \<and> ''bob'' \<noteq> [] \<and> from_username bob_yo_out = ''bob'' \<and>
   get_all_messages demo_db 0 (Some (bearer ''ta'')) None None (Some ''alice'') None =
     Inr [bob_yo_out] \<and> ''alice'' \<noteq> [] \<and>
   reply_to_username bob_yo_out = Some ''alice''"
proof -
  have v: "verify_token demo_db 0 (Some (bearer ''ta'')) = Inr ''alice''"
    by (simp add: demo_verify_alice)
  note f = demo_feed_from_bob and t = demo_feed_to_alice [OF v]
  from get_all_messages_filters [of demo_db 0 "Some (bearer ''ta'')" None None None None] f t
  have "(\<forall>r \<in> set [bob_yo_out]. from_username r = ''bob'') \<and>
        (\<forall>r \<in> set [bob_yo_out]. reply_to_username r = Some ''alice'')"
    by blast
  with f t show ?thesis by simp
qed

text \<open>
  Exact match does not extend to the empty string: a call that supplies it as
  \<open>from_user\<close> is answered with the messages of alice and bob, whose
  \<open>from_username\<close> is not the empty string.
\<close>

theorem get_all_messages_empty_filter_counterexample:
  "get_all_messages demo_db 0 (Some (bearer ''ta'')) None (Some []) None None =
     Inr [alice_hi_out, bob_yo_out] \<and> from_username alice_hi_out \<noteq> []"
proof -
  have v: "verify_token demo_db 0 (Some (bearer ''ta'')) = Inr ''alice''"
    by (simp add: demo_verify_alice)
  have "get_all_messages demo_db 0 (Some (bearer ''ta'')) None (Some []) None None =
        get_all_messages demo_db 0 (Some (bearer ''ta'')) None None None None"
    unfolding get_all_messages_def conditions_empty_from_user nullable_empty by (rule refl)
  with demo_feed_unfiltered [OF v] show ?thesis
    by (simp add: demo_out_senders)
qed

text \<open>
  C9. The answer of the generic feed, rows or error, is a function of the store and of
  the four parameters alone: two callers whose tokens are valid, whoever they are and
  whenever they ask, get the same answer to the same question. So whatever row one of
  them is shown, the other is shown too, be it addressed to either of them or to
  neither.
\<close>

theorem get_all_messages_caller_independent:
  assumes "verify_token d now authorization = Inr auth_user"
    and "verify_token d now' authorization' = Inr auth_user'"
  shows "get_all_messages d now authorization from_id from_user to_user limit =
         get_all_messages d now' authorization' from_id from_user to_user limit \<and>
         (\<forall>rows r. get_all_messages d now authorization from_id from_user to_user limit =
              Inr rows \<and> r \<in> set rows \<longrightarrow>
            (\<exists>rows'. get_all_messages d now' authorization' from_id from_user to_user limit =
               Inr rows' \<and> r \<in> set rows'))"
proof -
  have "get_all_messages d now authorization from_id from_user to_user limit =
         get_all_messages d now' authorization' from_id from_user to_user limit"
    by (simp only: get_all_messages_authenticated [OF assms(1)]
        get_all_messages_authenticated [OF assms(2)])
  then show ?thesis by simp
qed

text \<open>
  Eve, who neither sent nor received it, asks for what is addressed to alice and reads
  bob's direct message to her, as alice does.
\<close>

theorem get_all_messages_caller_independent_witness:
  "verify_token demo_db 0 (Some (bearer ''ta'')) = Inr ''alice'' \<and>
   verify_token demo_db 7 (Some (bearer ''te'')) = Inr ''eve'' \<and>
   get_all_messages demo_db 0 (Some (bearer ''ta'')) None None (Some ''alice'') None =
     Inr [bob_yo_out] \<and>
   get_all_messages demo_db 7 (Some (bearer ''te'')) None None (Some ''alice'') None =
     Inr [bob_yo_out] \<and>
   from_username bob_yo_out = ''bob'' \<and> reply_to_username bob_yo_out = Some ''alice''"
proof -
  have a: "verify_token demo_db 0 (Some (bearer ''ta'')) = Inr ''alice''"
    by (simp add: demo_verify_alice)
  have e: "verify_token demo_db 7 (Some (bearer ''te'')) = Inr ''eve''"
    by (simp add: demo_verify_eve)
  note alice = demo_feed_to_alice [OF a]
  from get_all_messages_caller_independent [OF a e, of None None "Some ''alice''" None] alice
  have "get_all_messages demo_db 7 (Some (bearer ''te'')) None None (Some ''alice'') None =
     Inr [bob_yo_out]" by simp
  with a e alice show ?thesis
    by (simp add: demo_out_senders demo_out_recipients)
qed

section \<open>The broadcast feed and the inbox\<close>
















lemma path_param_nonempty: "path_param u \<Longrightarrow> u \<noteq> []"
  by (simp add: path_param_def)






section \<open>Issuing tokens\<close>



lemma authenticate_Inr:
  assumes "authenticate d now rnd username codeword = Inr (d', r)"
  shows "d' = d\<lparr>tokens := (tokens d)(rnd \<mapsto>
              \<lparr>t_username = username, t_expires = now + timedelta_days 1\<rparr>)\<rparr>"
    and "users d username \<noteq> None" and "tokens d rnd = None"
  using assms by (auto simp: authenticate_def split: option.splits if_splits)



section \<open>Sending\<close>

lemma insert_message_Inr:
  assumes "insert_message d sender recipient body now reply_id = Inr d'"
  shows "d' = d\<lparr>messages := messages d @
                    [\<lparr>message_id = next_id d, reply_to_message_id = reply_id,
                      from_username = sender, reply_to_username = recipient,
                      message = body, datetime = now\<rparr>],
                  next_id := next_id d + 1\<rparr>"
    and "\<not> insert_refused d sender recipient body reply_id"
    and "\<not> insert_violates d sender"
  using assms by (simp_all add: insert_message_def split: if_splits)

lemma insert_message_appends:
  assumes "insert_message d sender recipient body now reply_id = Inr d'"
  shows "\<exists>m. messages d' = messages d @ [m] \<and> from_username m = sender \<and>
           reply_to_username m = recipient \<and> message m = body"
  using insert_message_Inr(1) [OF assms] by simp

lemma insert_message_accepted:
  assumes "\<not> insert_refused d sender recipient body reply_id"
    and "\<not> insert_violates d sender"
  shows "\<exists>d'. insert_message d sender recipient body now reply_id = Inr d'"
  using assms by (simp add: insert_message_def)

lemma after_insert_accepted:
  assumes "insert_message d sender recipient body now reply_id = Inr d'"
  shows "after_insert d sender recipient body now reply_id = d'"
  using assms by (simp add: insert_message_def after_insert_def split: if_splits)

lemma after_insert_refused:
  assumes "insert_message d sender recipient body now reply_id = Inl e"
  shows "messages (after_insert d sender recipient body now reply_id) = messages d"
    and "users (after_insert d sender recipient body now reply_id) = users d"
    and "tokens (after_insert d sender recipient body now reply_id) = tokens d"
    and "next_id d \<le> next_id (after_insert d sender recipient body now reply_id)"
  using assms by (simp_all add: insert_message_def after_insert_def split: if_splits)

lemma db_ok_next_id_new:
  assumes "db_ok d"
  shows "next_id d \<notin> set (map message_id (messages d))"
  using assms by (auto simp: db_ok_def list_all_iff)

lemma verify_token_is_user:
  assumes "db_ok d" and "verify_token d now authorization = Inr u"
  shows "users d u \<noteq> None"
proof -
  from assms(2) obtain tok row where "tokens d tok = Some row" and "t_username row = u"
    unfolding verify_token_Inr_iff by blast
  with assms(1) show ?thesis by (auto simp: db_ok_def)
qed

lemma send_broadcast_authenticated:
  assumes "verify_token d now authorization = Inr u"
  shows "send_broadcast d now now' authorization msg =
     insert_message d u None (in_message msg) now' (in_reply_to_message_id msg)"
  using assms by (simp add: send_broadcast_def)

lemma send_direct_authenticated:
  assumes "verify_token d now authorization = Inr u"
  shows "send_direct d now now' authorization to_user msg =
     insert_message d u (Some to_user) (in_message msg) now' (in_reply_to_message_id msg)"
  using assms by (simp add: send_direct_def)

lemma send_broadcast_Inr:
  assumes "send_broadcast d now now' authorization msg = Inr d'"
  shows "\<exists>u. verify_token d now authorization = Inr u \<and>
           insert_message d u None (in_message msg) now' (in_reply_to_message_id msg) = Inr d'"
  using assms
  by (cases "verify_token d now authorization") (simp_all add: send_broadcast_def)

lemma send_direct_Inr:
  assumes "send_direct d now now' authorization to_user msg = Inr d'"
  shows "\<exists>u. verify_token d now authorization = Inr u \<and>
           insert_message d u (Some to_user) (in_message msg) now'
             (in_reply_to_message_id msg) = Inr d'"
  using assms
  by (cases "verify_token d now authorization") (simp_all add: send_direct_def)

text \<open>
  C8. When the token of a request to either sending endpoint resolves to \<open>u\<close> and the
  request goes through, the store after the request is the store before it with one more
  message, whose \<open>from_username\<close> is \<open>u\<close>, for every body \<open>msg\<close> and every
  recipient.
\<close>

theorem sender_is_authenticated_user:
  assumes "verify_token d now authorization = Inr u"
  shows "(\<forall>d'. send_broadcast d now now' authorization msg = Inr d' \<longrightarrow>
            (\<exists>m. messages d' = messages d @ [m] \<and> from_username m = u)) \<and>
         (\<forall>d'. send_direct d now now' authorization to_user msg = Inr d' \<longrightarrow>
            (\<exists>m. messages d' = messages d @ [m] \<and> from_username m = u))"
proof (intro conjI allI impI)
  fix d' assume "send_broadcast d now now' authorization msg = Inr d'"
  then have "insert_message d u None (in_message msg) now' (in_reply_to_message_id msg) = Inr d'"
    by (simp only: send_broadcast_authenticated [OF assms])
  from insert_message_appends [OF this]
  show "\<exists>m. messages d' = messages d @ [m] \<and> from_username m = u" by blast
next
  fix d' assume "send_direct d now now' authorization to_user msg = Inr d'"
  then have "insert_message d u (Some to_user) (in_message msg) now'
      (in_reply_to_message_id msg) = Inr d'"
    by (simp only: send_direct_authenticated [OF assms])
  from insert_message_appends [OF this]
  show "\<exists>m. messages d' = messages d @ [m] \<and> from_username m = u" by blast
qed

lemma demo_db_ok: "db_ok demo_db"
  unfolding db_ok_def
proof (intro conjI allI impI)
  show "distinct (map message_id (messages demo_db))" by (rule demo_db_distinct)
  show "list_all (\<lambda>m. message_id m < next_id demo_db) (messages demo_db)"
    by (simp add: demo_db_def alice_hi_def bob_yo_def)
  show "list_all (\<lambda>m. users demo_db (from_username m) \<noteq> None) (messages demo_db)"
    by (simp add: demo_messages alice_hi_def bob_yo_def demo_users_alice demo_users_bob)
  fix k r assume "tokens demo_db k = Some r"
  then have "t_username r = ''alice'' \<or> t_username r = ''bob'' \<or> t_username r = ''eve''"
    by (auto simp: demo_db_def split: if_splits)
  then show "users demo_db (t_username r) \<noteq> None"
    by (auto simp: demo_users_alice demo_users_bob demo_users_eve)
qed

lemma demo_next_id: "next_id demo_db = 3"
  by (simp add: demo_db_def)

lemma demo_bob_may_insert: "\<not> insert_violates demo_db ''bob''"
  by (simp add: insert_violates_def demo_users_bob demo_next_id demo_messages demo_ids)

lemma demo_insert_accepted:
  assumes "nullable pg_text recipient" and "pg_text body" and "nullable int4 reply_id"
  shows "\<exists>d'. insert_message demo_db ''bob'' recipient body now reply_id = Inr d'"
proof (rule insert_message_accepted)
  show "\<not> insert_refused demo_db ''bob'' recipient body reply_id"
    using assms by (simp add: insert_refused_def names_are_text demo_next_id)
  show "\<not> insert_violates demo_db ''bob''" by (rule demo_bob_may_insert)
qed

text \<open>
  Bob sends with a body that tries to look like alice's; the row is bob's.
\<close>

theorem sender_is_authenticated_user_witness:
  "verify_token demo_db 0 (Some (bearer ''tb'')) = Inr ''bob'' \<and>
   (\<exists>d' m. send_broadcast demo_db 0 1 (Some (bearer ''tb''))
              \<lparr>in_reply_to_message_id = Some 1, in_message = ''from_username=alice''\<rparr> = Inr d' \<and>
      messages d' = messages demo_db @ [m] \<and> from_username m = ''bob'') \<and>
   (\<exists>d' m. send_direct demo_db 0 1 (Some (bearer ''tb'')) ''alice''
              \<lparr>in_reply_to_message_id = None, in_message = ''from_username=alice''\<rparr> = Inr d' \<and>
      messages d' = messages demo_db @ [m] \<and> from_username m = ''bob'')"
proof -
  let ?m1 = "\<lparr>in_reply_to_message_id = Some 1, in_message = ''from_username=alice''\<rparr>"
  let ?m2 = "\<lparr>in_reply_to_message_id = None, in_message = ''from_username=alice''\<rparr>"
  have b: "verify_token demo_db 0 (Some (bearer ''tb'')) = Inr ''bob''"
    by (simp add: demo_verify_bob)
  have body: "pg_text ''from_username=alice''" by (simp add: pg_text_def)
  have "\<exists>d'. insert_message demo_db ''bob'' None (in_message ?m1) 1
           (in_reply_to_message_id ?m1) = Inr d'"
    by (rule demo_insert_accepted) (simp_all add: nullable_def int4_def body)
  then obtain d1 where 1: "send_broadcast demo_db 0 1 (Some (bearer ''tb'')) ?m1 = Inr d1"
    unfolding send_broadcast_authenticated [OF b] by blast
  have "\<exists>d'. insert_message demo_db ''bob'' (Some ''alice'') (in_message ?m2) 1
           (in_reply_to_message_id ?m2) = Inr d'"
    by (rule demo_insert_accepted) (simp_all add: nullable_def names_are_text body)
  then obtain d2 where 2: "send_direct demo_db 0 1 (Some (bearer ''tb'')) ''alice'' ?m2 = Inr d2"
    unfolding send_direct_authenticated [OF b] by blast
  from sender_is_authenticated_user [OF b, of 1 ?m1] 1
  have "\<exists>m. messages d1 = messages demo_db @ [m] \<and> from_username m = ''bob''" by blast
  moreover from sender_is_authenticated_user [OF b, of 1 ?m2 "''alice''"] 2
  have "\<exists>m. messages d2 = messages demo_db @ [m] \<and> from_username m = ''bob''" by blast
  ultimately show ?thesis using b 1 2 by blast
qed

section \<open>Invariants of the writing endpoints\<close>

lemma db_ok_insert_message:
  assumes "db_ok d" and "insert_message d sender recipient body now reply_id = Inr d'"
  shows "db_ok d'"
proof -
  note r = insert_message_Inr [OF assms(2)]
  from assms(1) have "list_all (\<lambda>m. message_id m < next_id d + 1) (messages d)"
    by (auto simp: db_ok_def list_all_iff)
  with assms(1) r(3) show ?thesis
    unfolding r(1) by (auto simp: db_ok_def insert_violates_def)
qed

lemma db_ok_next_id:
  assumes "db_ok d"
  shows "db_ok (d\<lparr>next_id := next_id d + 1\<rparr>)"
  using assms by (auto simp: db_ok_def list_all_iff)

lemma db_ok_after_insert:
  assumes "db_ok d"
  shows "db_ok (after_insert d sender recipient body now reply_id)"
proof (cases "insert_message d sender recipient body now reply_id")
  case (Inr d')
  with assms show ?thesis
    by (simp add: after_insert_accepted db_ok_insert_message)
next
  case (Inl e)
  with assms show ?thesis
    by (auto simp: after_insert_def insert_message_def db_ok_next_id split: if_splits)
qed

lemma db_ok_authenticate:
  assumes "db_ok d" and "authenticate d now rnd username codeword = Inr (d', r)"
  shows "db_ok d'"
  using assms(1) authenticate_Inr(2) [OF assms(2)]
  unfolding authenticate_Inr(1) [OF assms(2)] by (auto simp: db_ok_def)

lemma db_ok_apply_request:
  assumes "db_ok d"
  shows "db_ok (apply_request d r)"
proof (cases r)
  case (PostAuth now rnd username codeword)
  with assms show ?thesis
    by (auto split: sum.splits dest: db_ok_authenticate)
next
  case (PostParticipants now now' authorization msg)
  with assms show ?thesis
    by (auto split: sum.splits simp: db_ok_after_insert)
next
  case (PostParticipantsTo now now' authorization to_user msg)
  with assms show ?thesis
    by (auto split: sum.splits simp: db_ok_after_insert)
qed

lemma db_ok_serve: "db_ok d \<Longrightarrow> db_ok (serve d reqs)"
  by (induction reqs arbitrary: d) (simp_all add: db_ok_apply_request)

lemma db_ok_upsert_user:
  assumes "db_ok d"
  shows "db_ok (upsert_user d username codeword is_human)"
  using assms by (auto simp: db_ok_def upsert_user_def list_all_iff split: option.splits)

lemma db_ok_init_entry:
  assumes "db_ok d" and "init_entry d e = Inr d'"
  shows "db_ok d'"
  using assms by (auto simp: init_entry_def db_ok_upsert_user split: option.splits)

lemma db_ok_init_users: "db_ok d \<Longrightarrow> db_ok (fst (init_users d es))"
  by (induction es arbitrary: d) (auto split: sum.splits dest: db_ok_init_entry)

lemma db_ok_lifespan: "db_ok d \<Longrightarrow> db_ok (fst (lifespan d parsed_users))"
  by (cases parsed_users) (simp_all add: lifespan_def db_ok_init_users)

lemma db_ok_empty_db: "db_ok empty_db"
  by (simp add: db_ok_def empty_db_def)

text \<open>A request that goes through leaves the store its handler returns.\<close>

lemma apply_request_send_broadcast:
  assumes "send_broadcast d now now' authorization msg = Inr d'"
  shows "apply_request d (PostParticipants now now' authorization msg) = d'"
  using send_broadcast_Inr [OF assms] by (auto simp: after_insert_accepted)

lemma apply_request_send_direct:
  assumes "path_param to_user"
    and "send_direct d now now' authorization to_user msg = Inr d'"
  shows "apply_request d (PostParticipantsTo now now' authorization to_user msg) = d'"
  using assms(1) send_direct_Inr [OF assms(2)] by (auto simp: after_insert_accepted)

lemma authenticate_messages:
  assumes "authenticate d now rnd username codeword = Inr (d', r)"
  shows "messages d' = messages d"
  unfolding authenticate_Inr(1) [OF assms] by simp

lemma after_insert_created:
  "\<exists>new. messages (after_insert d sender recipient body now reply_id) = messages d @ new \<and>
     (\<forall>m \<in> set new. reply_to_username m = recipient)"
proof (cases "insert_message d sender recipient body now reply_id")
  case (Inl e)
  from after_insert_refused(1) [OF this] show ?thesis
    by (intro exI [of _ "[]"]) simp
next
  case (Inr d')
  from insert_message_appends [OF this] obtain m where
    "messages d' = messages d @ [m]" and "reply_to_username m = recipient" by blast
  with after_insert_accepted [OF Inr] show ?thesis
    by (intro exI [of _ "[m]"]) simp
qed

lemma apply_request_created:
  "\<exists>new. messages (apply_request d r) = messages d @ new \<and>
     (\<forall>m \<in> set new. reply_to_username m = None \<or>
        (\<exists>u. reply_to_username m = Some u \<and> u \<noteq> []))"
proof (cases r)
  case (PostAuth now rnd username codeword)
  then have "messages (apply_request d r) = messages d @ []"
    by (auto split: sum.splits dest: authenticate_messages)
  then show ?thesis by (intro exI [of _ "[]"]) simp
next
  case (PostParticipants now now' authorization msg)
  show ?thesis
  proof (cases "verify_token d now authorization")
    case (Inl e)
    with PostParticipants show ?thesis by (intro exI [of _ "[]"]) simp
  next
    case (Inr u)
    from after_insert_created [of d u None "in_message msg" now' "in_reply_to_message_id msg"]
    obtain new where "messages (after_insert d u None (in_message msg) now'
        (in_reply_to_message_id msg)) = messages d @ new"
      and "\<forall>m \<in> set new. reply_to_username m = None" by blast
    with PostParticipants Inr show ?thesis by (intro exI [of _ new]) simp
  qed
next
  case (PostParticipantsTo now now' authorization to_user msg)
  show ?thesis
  proof (cases "path_param to_user")
    case False
    with PostParticipantsTo show ?thesis by (intro exI [of _ "[]"]) simp
  next
    case True
    show ?thesis
    proof (cases "verify_token d now authorization")
      case (Inl e)
      with PostParticipantsTo show ?thesis by (intro exI [of _ "[]"]) simp
    next
      case (Inr u)
      from after_insert_created [of d u "Some to_user" "in_message msg" now'
          "in_reply_to_message_id msg"]
      obtain new where "messages (after_insert d u (Some to_user) (in_message msg) now'
          (in_reply_to_message_id msg)) = messages d @ new"
        and "\<forall>m \<in> set new. reply_to_username m = Some to_user" by blast
      with PostParticipantsTo Inr True show ?thesis
        by (intro exI [of _ new]) (simp add: path_param_nonempty)
    qed
  qed
qed

lemma serve_created:
  "\<exists>new. messages (serve d reqs) = messages d @ new \<and>
     (\<forall>m \<in> set new. reply_to_username m = None \<or>
        (\<exists>u. reply_to_username m = Some u \<and> u \<noteq> []))"
proof (induction reqs arbitrary: d)
  case Nil
  show ?case by (intro exI [of _ "[]"]) simp
next
  case (Cons r reqs)
  from apply_request_created [of d r] obtain new1 where
    1: "messages (apply_request d r) = messages d @ new1"
    "\<forall>m \<in> set new1. reply_to_username m = None \<or> (\<exists>u. reply_to_username m = Some u \<and> u \<noteq> [])"
    by blast
  from Cons.IH [of "apply_request d r"] obtain new2 where
    2: "messages (serve (apply_request d r) reqs) = messages (apply_request d r) @ new2"
    "\<forall>m \<in> set new2. reply_to_username m = None \<or> (\<exists>u. reply_to_username m = Some u \<and> u \<noteq> [])"
    by blast
  from 1 2 show ?case
    by (intro exI [of _ "new1 @ new2"]) auto
qed

text \<open>
  C10. A successful \<open>send_broadcast\<close> appends one message whose recipient is null, not
  the empty string; a successful \<open>send_direct\<close>, called with what the route can bind
  to \<open>to_user\<close> (a non-empty path parameter), appends one message whose recipient is
  that \<open>to_user\<close>. Hence whatever sequence of requests the writing endpoints serve,
  the messages they add to the store are each either without recipient or addressed to
  a non-empty name: the empty-string recipient does not come from these endpoints.
\<close>

theorem recipient_of_sent_message:
  "(\<forall>d'. send_broadcast d now now' authorization msg = Inr d' \<longrightarrow>
      (\<exists>m. messages d' = messages d @ [m] \<and> reply_to_username m = None \<and>
         reply_to_username m \<noteq> Some [])) \<and>
   (\<forall>d'. path_param to_user \<and>
         send_direct d now now' authorization to_user msg = Inr d' \<longrightarrow>
      (\<exists>m. messages d' = messages d @ [m] \<and> reply_to_username m = Some to_user \<and>
         reply_to_username m \<noteq> Some [])) \<and>
   (\<exists>new. messages (serve d reqs) = messages d @ new \<and>
      (\<forall>m \<in> set new. reply_to_username m = None \<or>
         (\<exists>u. reply_to_username m = Some u \<and> u \<noteq> [])))"
proof (intro conjI allI impI)
  fix d' assume "send_broadcast d now now' authorization msg = Inr d'"
  from send_broadcast_Inr [OF this] obtain u where
    "insert_message d u None (in_message msg) now' (in_reply_to_message_id msg) = Inr d'"
    by blast
  from insert_message_appends [OF this]
  show "\<exists>m. messages d' = messages d @ [m] \<and> reply_to_username m = None \<and>
      reply_to_username m \<noteq> Some []" by auto
next
  fix d'
  assume h: "path_param to_user \<and> send_direct d now now' authorization to_user msg = Inr d'"
  then have "send_direct d now now' authorization to_user msg = Inr d'" by simp
  from send_direct_Inr [OF this] obtain u where
    "insert_message d u (Some to_user) (in_message msg) now'
       (in_reply_to_message_id msg) = Inr d'"
    by blast
  from insert_message_appends [OF this] h
  show "\<exists>m. messages d' = messages d @ [m] \<and> reply_to_username m = Some to_user \<and>
      reply_to_username m \<noteq> Some []" by (auto dest: path_param_nonempty)
next
  show "\<exists>new. messages (serve d reqs) = messages d @ new \<and>
      (\<forall>m \<in> set new. reply_to_username m = None \<or>
         (\<exists>u. reply_to_username m = Some u \<and> u \<noteq> []))"
    by (rule serve_created)
qed

theorem recipient_of_sent_message_witness:
  "path_param ''alice'' \<and>
   (\<exists>d' m. send_direct demo_db 0 1 (Some (bearer ''tb'')) ''alice''
              \<lparr>in_reply_to_message_id = None, in_message = ''again''\<rparr> = Inr d' \<and>
      messages d' = messages demo_db @ [m] \<and> reply_to_username m = Some ''alice'') \<and>
   (\<exists>d' m. send_broadcast demo_db 0 1 (Some (bearer ''tb''))
              \<lparr>in_reply_to_message_id = None, in_message = ''again''\<rparr> = Inr d' \<and>
      messages d' = messages demo_db @ [m] \<and> reply_to_username m = None)"
proof -
  let ?msg = "\<lparr>in_reply_to_message_id = None, in_message = ''again''\<rparr>"
  have b: "verify_token demo_db 0 (Some (bearer ''tb'')) = Inr ''bob''"
    by (simp add: demo_verify_bob)
  have p: "path_param ''alice''" by (simp add: path_param_def)
  have "\<exists>d'. insert_message demo_db ''bob'' (Some ''alice'') (in_message ?msg) 1
           (in_reply_to_message_id ?msg) = Inr d'"
    and "\<exists>d'. insert_message demo_db ''bob'' None (in_message ?msg) 1
           (in_reply_to_message_id ?msg) = Inr d'"
    by (rule demo_insert_accepted; simp add: nullable_def pg_text_def)+
  then obtain d1 d2 where
    1: "send_direct demo_db 0 1 (Some (bearer ''tb'')) ''alice'' ?msg = Inr d1" and
    2: "send_broadcast demo_db 0 1 (Some (bearer ''tb'')) ?msg = Inr d2"
    unfolding send_direct_authenticated [OF b] send_broadcast_authenticated [OF b] by blast
  note inst = recipient_of_sent_message [of demo_db 0 1 "Some (bearer ''tb'')" ?msg "''alice''" "[]"]
  from inst p 1 have "\<exists>m. messages d1 = messages demo_db @ [m] \<and>
      reply_to_username m = Some ''alice''" by blast
  moreover from inst 2 have "\<exists>m. messages d2 = messages demo_db @ [m] \<and>
      reply_to_username m = None" by blast
  ultimately show ?thesis using p 1 2 by blast
qed

section \<open>Startup\<close>




















end
